theory Spec2Isabelle
  imports Main "HOL-Library.Sublist"
begin

section \<open>The netblock classifier of the steam-limiter update service\<close>

text \<open>
  A shallow embedding of \<^verbatim>\<open>updateapp/main.py\<close>: the address parser
  \<^verbatim>\<open>stringip_to_number\<close>, the classifier \<^verbatim>\<open>find_netblock\<close> (IPv6 prefix scan
  and IPv4 binary search), the ISP registry \<^verbatim>\<open>isps\<close> and the composition
  \<^verbatim>\<open>bundle\<close>. Python integers are unbounded, so every number is an \<open>int\<close>;
  exceptions are values of the type \<open>error\<close>. The calls to \<^verbatim>\<open>logging\<close> write a
  log line and do not take part in any returned value; they are left out.
  The module \<^verbatim>\<open>ip_match\<close>, which holds the netblock table, is not part of the
  sources at hand: the table is a parameter of every function that reads it. The
  composition of the bundle is stated for any registry first, and then for \<^verbatim>\<open>isps\<close>.
\<close>

subsection \<open>Python values and library functions\<close>

datatype error = ValueError | IndexError | TypeError

text \<open>\<^verbatim>\<open>find_netblock\<close> tests \<^verbatim>\<open>type (ip)\<close>: a \<^verbatim>\<open>str\<close> or \<^verbatim>\<open>unicode\<close> object, or
  else a number that is used as it is. The two kinds of text are read alike except by
  \<^verbatim>\<open>int\<close>, so a text carries its type. The characters of a \<^verbatim>\<open>str\<close> are bytes; of
  a \<^verbatim>\<open>unicode\<close> object, the code points below 256 are the ones that a \<open>char\<close> can
  hold, and texts with other code points are outside this model.\<close>

datatype text_type = Str | Unicode

datatype address = Text text_type string | Number int

text \<open>\<^verbatim>\<open>string.split (text, sep)\<close> with a one-character separator: every occurrence
  splits, empty fields are kept, and the empty string gives one empty field.\<close>

fun split :: "char \<Rightarrow> string \<Rightarrow> string list" where
  "split sep [] = [Nil]"
| "split sep (c # cs) =
     (if c = sep then [] # split sep cs
      else (case split sep cs of
              [] \<Rightarrow> [c] # []
            | f # fs \<Rightarrow> (c # f) # fs))"

text \<open>\<^verbatim>\<open>int (item)\<close> on a \<^verbatim>\<open>str\<close>, base ten, as the interpreter of the service
  (Python 2) reads it: white space, at most one sign, white space again, then decimal
  digits up to the first character that is none. There must be at least one digit, and
  nothing but white space after the digits; anything else raises \<^verbatim>\<open>ValueError\<close>,
  which is \<open>None\<close> here. White space in a \<^verbatim>\<open>str\<close> is the blank and the five
  control characters from tab to carriage return.\<close>

definition isspace :: "char \<Rightarrow> bool" where
  "isspace c \<longleftrightarrow> c \<in> {CHR '' '', CHR 0x09, CHR 0x0A, CHR 0x0B, CHR 0x0C, CHR 0x0D}"

definition isdigit :: "char \<Rightarrow> bool" where
  "isdigit c \<longleftrightarrow> c \<in> set ''0123456789''"

definition digit_value :: "char \<Rightarrow> int" where
  "digit_value c = int (of_char c) - 48"

definition decimal :: "string \<Rightarrow> int" where
  "decimal ds = foldl (\<lambda>acc c. acc * 10 + digit_value c) 0 ds"

definition py_int_str :: "string \<Rightarrow> int option" where
  "py_int_str s =
     (let s1 = dropWhile isspace s;
          signed = (s1 \<noteq> [] \<and> (hd s1 = CHR ''-'' \<or> hd s1 = CHR ''+''));
          negative = (s1 \<noteq> [] \<and> hd s1 = CHR ''-'');
          s2 = dropWhile isspace (if signed then tl s1 else s1);
          ds = takeWhile isdigit s2;
          rest = dropWhile isdigit s2
      in if ds \<noteq> [] \<and> list_all isspace rest
         then Some (if negative then - decimal ds else decimal ds)
         else None)"

text \<open>\<^verbatim>\<open>int (item)\<close> on a \<^verbatim>\<open>unicode\<close> object first turns the text into bytes: every
  character that is white space for \<^verbatim>\<open>unicode\<close> becomes a blank, and a decimal digit
  or any other code point below 256 stays as it is. Below 256 the white space of
  \<^verbatim>\<open>unicode\<close> is that of \<^verbatim>\<open>str\<close> and the code points 1C to 1F, 85 and A0, and
  the only decimal digits are \<open>0\<close> to \<open>9\<close>. The bytes are then read as a
  \<^verbatim>\<open>str\<close> is. The error for the code point 0, which this step refuses, is a
  \<^verbatim>\<open>ValueError\<close> as well.\<close>

definition unicode_isspace :: "char \<Rightarrow> bool" where
  "unicode_isspace c \<longleftrightarrow>
     isspace c \<or> c \<in> {CHR 0x1C, CHR 0x1D, CHR 0x1E, CHR 0x1F, CHR 0x85, CHR 0xA0}"

definition encode_decimal :: "string \<Rightarrow> string" where
  "encode_decimal s = map (\<lambda>c. if unicode_isspace c then CHR '' '' else c) s"

fun py_int :: "text_type \<Rightarrow> string \<Rightarrow> int option" where
  "py_int Str s = py_int_str s"
| "py_int Unicode s = py_int_str (encode_decimal s)"

text \<open>\<^verbatim>\<open>ip.upper ()\<close>: the letters \<open>a\<close> to \<open>z\<close> are replaced by their capitals. For
  a \<^verbatim>\<open>unicode\<close> object the method also changes letters beyond \<open>z\<close>; none of them
  becomes an ASCII character, and the result is only compared with ASCII prefixes, so
  these letters are left as they are.\<close>

definition upper_char :: "char \<Rightarrow> char" where
  "upper_char c =
     (case map_of (zip ''abcdefghijklmnopqrstuvwxyz'' ''ABCDEFGHIJKLMNOPQRSTUVWXYZ'') c of
        None \<Rightarrow> c
      | Some u \<Rightarrow> u)"

definition upper :: "string \<Rightarrow> string" where
  "upper s = map upper_char s"

text \<open>\<^verbatim>\<open>table [mid]\<close>: an index below zero counts from the end, and an index outside
  the list raises \<^verbatim>\<open>IndexError\<close>.\<close>

definition getitem :: "'a list \<Rightarrow> int \<Rightarrow> 'a option" where
  "getitem xs i =
     (if 0 \<le> i \<and> i < int (length xs) then Some (xs ! nat i)
      else if - int (length xs) \<le> i \<and> i < 0 then Some (xs ! nat (int (length xs) + i))
      else None)"

subsection \<open>stringip_to_number\<close>

text \<open>The loop \<^verbatim>\<open>for item in fields: total = (total << 8) + int (item)\<close>, started
  at \<^verbatim>\<open>total = 0\<close>. Neither the number of fields nor the size of a field is looked
  at.\<close>

fun pack_fields :: "text_type \<Rightarrow> int \<Rightarrow> string list \<Rightarrow> error + int" where
  "pack_fields ty tot [] = Inr tot"
| "pack_fields ty tot (item # fields) =
     (case py_int ty item of
        None \<Rightarrow> Inl ValueError
      | Some v \<Rightarrow> pack_fields ty (push_bit 8 tot + v) fields)"

definition stringip_to_number :: "text_type \<Rightarrow> string \<Rightarrow> error + int" where
  "stringip_to_number ty text = pack_fields ty 0 (split (CHR ''.'') text)"

subsection \<open>find_netblock\<close>

text \<open>An entry of \<^verbatim>\<open>ip_match.ip_table\<close> is a tuple read as \<^verbatim>\<open>item [0]\<close>,
  \<^verbatim>\<open>item [1]\<close>, \<^verbatim>\<open>item [2]\<close>: low bound, high bound, ISP index.\<close>

type_synonym netblock = "int \<times> int \<times> int"

text \<open>The dictionary \<^verbatim>\<open>ipv6_prefixes\<close>, as the list of its items in the order of the
  source text. The language does not fix the order in which \<^verbatim>\<open>items ()\<close> hands
  them out; the keys are distinct and of one length, so at most one of them starts a
  given text, and the scan gives the same index in every order
  (\<open>ipv6_scan_any_order\<close> below).\<close>

definition ipv6_prefixes :: "(string \<times> int) list" where
  "ipv6_prefixes =
     [(''2001:4400:'', 0),
      (''2001:4478:'', 12),
      (''2001:4479:'', 12),
      (''2001:44B8:'', 11),
      (''2406:E000:'', 2)]"

text \<open>The scan \<^verbatim>\<open>for prefix in ipv6_prefixes.items ()\<close>, with the
  \<^verbatim>\<open>return - 1\<close> that follows it.\<close>

fun ipv6_scan :: "(string \<times> int) list \<Rightarrow> string \<Rightarrow> int" where
  "ipv6_scan [] ip = - 1"
| "ipv6_scan (p # ps) ip = (if prefix (fst p) ip then snd p else ipv6_scan ps ip)"

text \<open>One pass through the body of \<^verbatim>\<open>while low <= high\<close>: the loop goes on with
  new bounds, or the function returns, or the table access raises.\<close>

datatype step = Continue int int | Return int | Raise error

definition loop_body :: "netblock list \<Rightarrow> int \<Rightarrow> int \<Rightarrow> int \<Rightarrow> step" where
  "loop_body table ipv4 low high =
     (let mid = (low + high) div 2
      in case getitem table mid of
           None \<Rightarrow> Raise IndexError
         | Some item \<Rightarrow>
             if fst item \<ge> ipv4 then Continue low (mid - 1)
             else if fst (snd item) \<ge> ipv4 then Return (snd (snd item))
             else Continue (mid + 1) high)"

function binary_search :: "netblock list \<Rightarrow> int \<Rightarrow> int \<Rightarrow> int \<Rightarrow> error + int" where
  "binary_search table ipv4 low high =
     (if low \<le> high then
        (case loop_body table ipv4 low high of
           Continue low' high' \<Rightarrow> binary_search table ipv4 low' high'
         | Return isp \<Rightarrow> Inr isp
         | Raise e \<Rightarrow> Inl e)
      else Inr (- 1))"
  by pat_completeness auto
termination
proof (relation "measure (\<lambda>(table, ipv4, low, high). nat (high - low + 1))")
  show "wf (measure (\<lambda>(table, ipv4, low, high). nat (high - low + 1)))"
    by simp
next
  fix table :: "netblock list" and ipv4 low high low' high' :: int
  assume bounds: "low \<le> high"
    and step: "loop_body table ipv4 low high = Continue low' high'"
  from bounds have "low \<le> (low + high) div 2" and "(low + high) div 2 \<le> high"
    by linarith+
  with step have "high' - low' < high - low"
    by (auto simp: loop_body_def Let_def split: option.splits if_splits)
  with bounds
  show "((table, ipv4, low', high'), (table, ipv4, low, high))
        \<in> measure (\<lambda>(table, ipv4, low, high). nat (high - low + 1))"
    by simp
qed

declare binary_search.simps [simp del]

definition loopback :: string where
  "loopback = ''127.0.0.1''"

definition test_address :: string where
  "test_address = ''203.167.129.4''"

text \<open>The comparison \<^verbatim>\<open>ip == '127.0.0.1'\<close> holds for a \<^verbatim>\<open>str\<close> and for a
  \<^verbatim>\<open>unicode\<close> object of these characters, and for no number; the literal that takes
  its place is a \<^verbatim>\<open>str\<close>.\<close>

definition find_netblock :: "netblock list \<Rightarrow> address \<Rightarrow> error + int" where
  "find_netblock table ip0 =
     (let ip = (case ip0 of
                  Text ty s \<Rightarrow> if s = loopback then Text Str test_address else ip0
                | Number n \<Rightarrow> ip0)
      in case ip of
           Text ty s \<Rightarrow>
             if CHR '':'' \<in> set s then Inr (ipv6_scan ipv6_prefixes (upper s))
             else (case stringip_to_number ty s of
                     Inl e \<Rightarrow> Inl e
                   | Inr ipv4 \<Rightarrow> binary_search table ipv4 0 (int (length table) - 1))
         | Number ipv4 \<Rightarrow> binary_search table ipv4 0 (int (length table) - 1))"

subsection \<open>The ISP registry\<close>

text \<open>The value under the key \<^verbatim>\<open>'test'\<close> is a dictionary: \<^verbatim>\<open>'report'\<close> maps to a
  flag, and a probe descriptor maps result codes to dictionaries of replacement
  fields. Dictionaries are lists of their items in the order of the source text.\<close>

datatype test_value = Flag bool | Probe "(int \<times> (string \<times> string) list) list"

type_synonym test_spec = "(string \<times> test_value) list"

text \<open>A value of \<^verbatim>\<open>isps\<close>. Every record of the source has the keys \<^verbatim>\<open>'name'\<close>
  and \<^verbatim>\<open>'server'\<close>; the other keys are read with \<^verbatim>\<open>isp.get\<close>, which gives
  \<^verbatim>\<open>None\<close> for a key that is not there.\<close>

record isp =
  isp_name :: string
  isp_server :: string
  isp_filter :: "string option"
  isp_allow :: "string option"
  isp_test :: "test_spec option"

definition isps :: "(int \<times> isp) list" where
  "isps = [
   (- 1, \<lparr>isp_name = ''Unknown'', isp_server = ''203.167.129.4'',
      isp_filter = Some (''# No specific content server for your ISP''),
      isp_allow = None,
      isp_test = None\<rparr>),
   (0, \<lparr>isp_name = ''TelstraClear New Zealand'', isp_server = ''203.167.129.4'',
      isp_filter = Some (''*:27030=wlgwpstmcon01.telstraclear.co.nz''),
      isp_allow = None,
      isp_test = None\<rparr>),
   (1, \<lparr>isp_name = ''Orcon New Zealand'', isp_server = ''0.0.0.0'',
      isp_filter = Some (''# Orcon no longer have a Steam server''),
      isp_allow = None,
      isp_test = None\<rparr>),
   (2, \<lparr>isp_name = ''Snap! New Zealand'', isp_server = ''0.0.0.0'',
      isp_filter = Some (''# Snap! no longer have a Steam server''),
      isp_allow = None,
      isp_test = None\<rparr>),
   (3, \<lparr>isp_name = ''Slingshot New Zealand'', isp_server = ''119.224.142.146'',
      isp_filter = Some (''*:27030=119.224.142.146''),
      isp_allow = None,
      isp_test = None\<rparr>),
   (4, \<lparr>isp_name = ''Lightstream, Waikato New Zealand'', isp_server = ''202.124.127.66'',
      isp_filter = Some (''*:27030=202.124.127.66''),
      isp_allow = None,
      isp_test = None\<rparr>),
   (5, \<lparr>isp_name = ''Xnet/WorldxChange New Zealand'', isp_server = ''58.28.25.146'',
      isp_filter = Some (''*:27030=58.28.25.146''),
      isp_allow = None,
      isp_test = None\<rparr>),
   (6, \<lparr>isp_name = ''ACSData, Wellington NZ'', isp_server = ''0.0.0.0'',
      isp_filter = Some (''# No known unmetered Steam server''),
      isp_allow = None,
      isp_test = None\<rparr>),
   (7, \<lparr>isp_name = ''Vodafone New Zealand'', isp_server = ''0.0.0.0'',
      isp_filter = Some (''# No known unmetered Steam server''),
      isp_allow = None,
      isp_test = None\<rparr>),
   (8, \<lparr>isp_name = ''Telecom/XTRA New Zealand'', isp_server = ''0.0.0.0'',
      isp_filter = Some (''# No known unmetered Steam server''),
      isp_allow = None,
      isp_test = None\<rparr>),
   (9, \<lparr>isp_name = ''InSPire New Zealand'', isp_server = ''0.0.0.0'',
      isp_filter = Some (''# Please contribute a server IP for InSPire''),
      isp_allow = None,
      isp_test = None\<rparr>),
   (10, \<lparr>isp_name = ''Telstra BigPond Australia'', isp_server = ''0.0.0.0'',
      isp_filter = Some (''*:27030=203.39.198.136;'' @
                ''content?.steampowered.com=203.39.198.136''),
      isp_allow = None,
      isp_test = None\<rparr>),
   (11, \<lparr>isp_name = ''Internode Australia'', isp_server = ''0.0.0.0'',
      isp_filter = Some (''*:27030=49.143.234.14,files-oc-syd.games.on.net;'' @
                ''content?.steampowered.com=49.143.234.14,files-oc-syd.games.on.net''),
      isp_allow = Some ''//steam.cdn.on.net=*'',
      isp_test = None\<rparr>),
   (12, \<lparr>isp_name = ''iiNet Australia'', isp_server = ''0.0.0.0'',
      isp_filter = Some (''*:27030=steam.cdn.on.net;'' @
                ''content?.steampowered.com=''),
      isp_allow = Some ''//steam.cdn.on.net=*'',
      isp_test = None\<rparr>),
   (13, \<lparr>isp_name = ''Optus Australia'', isp_server = ''0.0.0.0'',
      isp_filter = Some (''*:27030=49.143.234.6,49.143.234.14;'' @
                ''content?.steampowered.com=49.143.234.6,49.143.234.14''),
      isp_allow = None,
      isp_test = None\<rparr>),
   (14, \<lparr>isp_name = ''iPrimus Australia'', isp_server = ''0.0.0.0'',
      isp_filter = Some (''*:27030=49.143.234.14,files-oc-syd.games.on.net;'' @
                ''content?.steampowered.com=49.143.234.14,files-oc-syd.games.on.net''),
      isp_allow = Some ''//steam.cdn.on.net=*'',
      isp_test = None\<rparr>),
   (15, \<lparr>isp_name = ''Westnet Internet Services (Perth, WA)'', isp_server = ''0.0.0.0'',
      isp_filter = Some (''*:27030=49.143.234.14,files-oc-syd.games.on.net;'' @
                ''content?.steampowered.com=49.143.234.14,files-oc-syd.games.on.net''),
      isp_allow = Some ''//steam.cdn.on.net=*'',
      isp_test = None\<rparr>),
   (16, \<lparr>isp_name = ''Adam Internet (Adelaide, SA)'', isp_server = ''0.0.0.0'',
      isp_filter = Some (''*:27030=49.143.234.14,files-oc-syd.games.on.net;'' @
                ''content?.steampowered.com=49.143.234.14,files-oc-syd.games.on.net''),
      isp_allow = Some ''//steam.cdn.on.net=*'',
      isp_test = None\<rparr>),
   (17, \<lparr>isp_name = ''EAccess Broadband, Australia'', isp_server = ''0.0.0.0'',
      isp_filter = Some (''# No known unmetered Steam server''),
      isp_allow = None,
      isp_test = None\<rparr>),
   (30, \<lparr>isp_name = ''Internet Solutions (Johannesburg, South Africa)'', isp_server = ''196.38.180.3'',
      isp_filter = Some (''*:27030=steam.isgaming.co.za''),
      isp_allow = None,
      isp_test = Some [(''report'', Flag True),
               (''steam.wa.co.za icmp *.wa.co.za'',
                Probe [(0, [(''ispname'', ''WebAfrica/IS dual ISP''),
                            (''filterrule'', ''*:27030=steam.wa.co.za,steam2.wa.co.za;content?.steampowered.com=steam.wa.co.za,steam2.wa.co.za'')])])]\<rparr>),
   (31, \<lparr>isp_name = ''webafrica (Cape Town, South Africa)'', isp_server = ''41.185.24.21'',
      isp_filter = Some (''*:27030=steam.wa.co.za,steam2.wa.co.za;content?.steampowered.com=steam.wa.co.za,steam2.wa.co.za''),
      isp_allow = None,
      isp_test = None\<rparr>),
   (32, \<lparr>isp_name = ''Telkom SAIX, South Africa'', isp_server = ''0.0.0.0'',
      isp_filter = Some (''# No known unmetered Steam server''),
      isp_allow = None,
      isp_test = Some [(''report'', Flag True),
               (''steam.wa.co.za icmp *.wa.co.za'',
                Probe [(0, [(''ispname'', ''WebAfrica/SAIX dual ISP''),
                            (''filterrule'', ''*:27030=steam.wa.co.za,steam2.wa.co.za;content?.steampowered.com=steam.wa.co.za,steam2.wa.co.za'')])])]\<rparr>),
   (33, \<lparr>isp_name = ''MWeb, South Africa'', isp_server = ''196.28.69.201'',
      isp_filter = Some (''*:27030=196.28.69.201,196.28.169.201''),
      isp_allow = None,
      isp_test = Some [(''report'', Flag True),
               (''steam.wa.co.za icmp *.wa.co.za'',
                Probe [(0, [(''ispname'', ''WebAfrica/MWeb dual ISP''),
                            (''filterrule'', ''*:27030=steam.wa.co.za,steam2.wa.co.za;content?.steampowered.com=steam.wa.co.za,steam2.wa.co.za'')])])]\<rparr>),
   (34, \<lparr>isp_name = ''Cybersmart, South Africa'', isp_server = ''0.0.0.0'',
      isp_filter = Some (''# No known Steam server for Cybersmart''),
      isp_allow = None,
      isp_test = Some [(''report'', Flag True),
               (''steam.wa.co.za icmp *.wa.co.za'',
                Probe [(0, [(''ispname'', ''WebAfrica/Cybersmart dual ISP''),
                            (''filterrule'', ''*:27030=steam.wa.co.za,steam2.wa.co.za;content?.steampowered.com=steam.wa.co.za,steam2.wa.co.za'')])])]\<rparr>),
   (40, \<lparr>isp_name = ''Vodafone Iceland'', isp_server = ''193.4.194.101'',
      isp_filter = Some (''*:27030=193.4.194.101''),
      isp_allow = None,
      isp_test = Some [(''report'', Flag True),
               (''193.4.194.101 80'',
                Probe [(0, [(''filterrule'', ''*:27030=193.4.194.101;content?.steampowered.com=193.4.194.101'')])])]\<rparr>),
   (50, \<lparr>isp_name = ''Google, Inc'', isp_server = ''0.0.0.0'',
      isp_filter = Some (''# What Steam server do Google use...?''),
      isp_allow = None,
      isp_test = None\<rparr>),
   (60, \<lparr>isp_name = ''Comcast Communications'', isp_server = ''0.0.0.0'',
      isp_filter = Some (''# No rules for Comcast, please suggest some!''),
      isp_allow = None,
      isp_test = None\<rparr>),
   (61, \<lparr>isp_name = ''AT&T Internet Services'', isp_server = ''0.0.0.0'',
      isp_filter = Some (''# No rules for AT&T, please suggest some!''),
      isp_allow = None,
      isp_test = None\<rparr>)]"

subsection \<open>bundle\<close>

definition code_file_base :: string where
  "code_file_base = ''http://steam-limiter.googlecode.com/files/''"

definition latest_version :: string where
  "latest_version = ''0.6.1.0''"

definition latest_file :: string where
  "latest_file = ''steamlimit-'' @ latest_version @ ''.exe''"

text \<open>What \<^verbatim>\<open>bundle\<close> reads of the request \<^verbatim>\<open>self\<close>: the query argument
  \<^verbatim>\<open>'ip'\<close> if it was sent, the peer address, and the header
  \<^verbatim>\<open>X-AppEngine-Country\<close> if it was sent.\<close>

record request =
  arg_ip :: "string option"
  remote_addr :: string
  header_country :: "string option"

text \<open>\<^verbatim>\<open>self.request.get ('ip', self.request.remote_addr)\<close>: the query argument where
  the request has one, which the framework hands out as a \<^verbatim>\<open>unicode\<close> object, and
  otherwise the peer address, a \<^verbatim>\<open>str\<close>.\<close>

definition source_of :: "request \<Rightarrow> address" where
  "source_of self =
     (case arg_ip self of
        None \<Rightarrow> Text Str (remote_addr self)
      | Some a \<Rightarrow> Text Unicode a)"

text \<open>The dictionary \<^verbatim>\<open>result\<close>; the key \<^verbatim>\<open>'test'\<close> is set only under
  \<^verbatim>\<open>if test\<close>, so it is \<open>None\<close> when the key is absent.\<close>

record bundle_dict =
  latest :: string
  download :: string
  country :: string
  ispname :: string
  filterip :: string
  filterrule :: string
  allow :: string
  test :: "test_spec option"

text \<open>\<^verbatim>\<open>x or y\<close> for \<^verbatim>\<open>x\<close> that is \<^verbatim>\<open>None\<close> or a string: \<^verbatim>\<open>None\<close> and the empty
  string are false.\<close>

definition py_or :: "string option \<Rightarrow> string \<Rightarrow> string" where
  "py_or x y = (case x of None \<Rightarrow> y | Some s \<Rightarrow> if s = [] then y else s)"

text \<open>The body of the function \<^verbatim>\<open>bundle\<close>, applied to the request, with the
  registry that it reads as a parameter. \<^verbatim>\<open>.get (netblock)\<close> on the registry is
  \<^verbatim>\<open>None\<close> for an index that is not a key, and \<^verbatim>\<open>isp ['name']\<close> then raises
  \<^verbatim>\<open>TypeError\<close>. An empty \<^verbatim>\<open>test\<close> dictionary is false under \<^verbatim>\<open>if test\<close>.\<close>

definition bundle_with ::
  "(int \<times> isp) list \<Rightarrow> netblock list \<Rightarrow> request \<Rightarrow> error + bundle_dict" where
  "bundle_with registry table self =
     (let source = source_of self
      in case find_netblock table source of
           Inl e \<Rightarrow> Inl e
         | Inr netblock \<Rightarrow>
             (let country = py_or (header_country self) ''Unknown''
              in case map_of registry netblock of
                   None \<Rightarrow> Inl TypeError
                 | Some isp \<Rightarrow>
                     Inr \<lparr>latest = latest_version,
                          download = code_file_base @ latest_file,
                          country = country,
                          ispname = isp_name isp,
                          filterip = isp_server isp,
                          filterrule = py_or (isp_filter isp) (isp_server isp),
                          allow = py_or (isp_allow isp) [],
                          test = (case isp_test isp of
                                    None \<Rightarrow> None
                                  | Some t \<Rightarrow> if t = [] then None else Some t)\<rparr>))"

text \<open>The function \<^verbatim>\<open>bundle\<close> of the source: the registry is \<^verbatim>\<open>isps\<close>.\<close>

definition bundle_of :: "netblock list \<Rightarrow> request \<Rightarrow> error + bundle_dict" where
  "bundle_of table self = bundle_with isps table self"

subsection \<open>Notions of the specification\<close>

text \<open>An address lies in the range of an entry when it is between the two bounds, both
  included.\<close>

definition in_range :: "int \<Rightarrow> netblock \<Rightarrow> bool" where
  "in_range a e \<longleftrightarrow> fst e \<le> a \<and> a \<le> fst (snd e)"

text \<open>The test that the loop body makes before it returns an index: the low bound is
  below the address, and the high bound is not.\<close>

definition matches :: "int \<Rightarrow> netblock \<Rightarrow> bool" where
  "matches a e \<longleftrightarrow> fst e < a \<and> a \<le> fst (snd e)"

definition disjoint :: "netblock \<Rightarrow> netblock \<Rightarrow> bool" where
  "disjoint e e' \<longleftrightarrow> fst (snd e) < fst e' \<or> fst (snd e') < fst e"

fun pairwise_disjoint :: "netblock list \<Rightarrow> bool" where
  "pairwise_disjoint [] = True"
| "pairwise_disjoint (e # es) = (list_all (disjoint e) es \<and> pairwise_disjoint es)"

text \<open>The invariant of the netblock table: sorted by low bound, no two ranges overlap,
  and no range is empty.\<close>

definition valid_table :: "netblock list \<Rightarrow> bool" where
  "valid_table table \<longleftrightarrow>
     sorted (map fst table) \<and>
     list_all (\<lambda>e. fst e \<le> fst (snd e)) table \<and>
     pairwise_disjoint table"

text \<open>A well-formed dotted quad: four fields between dots, each a run of decimal
  digits with a value of at most 255.\<close>

definition octet :: "string \<Rightarrow> bool" where
  "octet f \<longleftrightarrow> f \<noteq> [] \<and> list_all isdigit f \<and> decimal f \<le> 255"

definition dotted_quad :: "string \<Rightarrow> bool" where
  "dotted_quad s \<longleftrightarrow>
     (let fs = split (CHR ''.'') s in length fs = 4 \<and> list_all octet fs)"

text \<open>An address that is classified and matches nothing: with a colon, no configured
  prefix starts its upper-case form; without one, it parses to a number that lies in no
  range of the table.\<close>

definition unmatched :: "netblock list \<Rightarrow> text_type \<Rightarrow> string \<Rightarrow> bool" where
  "unmatched table ty s \<longleftrightarrow>
     (if CHR '':'' \<in> set s
      then list_all (\<lambda>p. \<not> prefix (fst p) (upper s)) ipv6_prefixes
      else (case stringip_to_number ty s of
              Inl e \<Rightarrow> False
            | Inr n \<Rightarrow> list_all (\<lambda>e. \<not> in_range n e) table))"

section \<open>The binary search\<close>

subsection \<open>Auxiliary facts\<close>

text \<open>The definitions that a closed instance of the parser or of the search unfolds.\<close>

lemmas parse_defs = stringip_to_number_def py_int_str_def encode_decimal_def
  unicode_isspace_def isspace_def isdigit_def decimal_def digit_value_def

lemmas search_defs = binary_search.simps loop_body_def getitem_def

lemma getitem_nth:
  "0 \<le> i \<Longrightarrow> i < int (length xs) \<Longrightarrow> getitem xs i = Some (xs ! nat i)"
  by (simp add: getitem_def)

lemma pairwise_disjoint_nth:
  "pairwise_disjoint t \<Longrightarrow> i < j \<Longrightarrow> j < length t \<Longrightarrow> disjoint (t ! i) (t ! j)"
proof (induction t arbitrary: i j)
  case Nil
  then show ?case by simp
next
  case (Cons e es)
  show ?case
  proof (cases i)
    case 0
    with Cons.prems obtain j' where j': "j = Suc j'" "j' < length es"
      by (cases j) auto
    from Cons.prems(1) have "list_all (disjoint e) es" by simp
    with j' have "disjoint e (es ! j')" by (simp add: list_all_length)
    with 0 j' show ?thesis by simp
  next
    case (Suc i')
    with Cons.prems obtain j' where j': "j = Suc j'" "i' < j'" "j' < length es"
      by (cases j) auto
    from Cons.prems(1) have "pairwise_disjoint es" by simp
    then have "disjoint (es ! i') (es ! j')" using j'(2,3) by (rule Cons.IH)
    with Suc j' show ?thesis by simp
  qed
qed

lemma valid_table_ordered:
  assumes "valid_table t" and "i < j" and "j < length t"
  shows "fst (snd (t ! i)) < fst (t ! j)"
proof -
  from assms have d: "disjoint (t ! i) (t ! j)"
    by (simp add: valid_table_def pairwise_disjoint_nth)
  from assms have "sorted (map fst t)" by (simp add: valid_table_def)
  with assms(2,3) have "map fst t ! i \<le> map fst t ! j"
    by (simp add: sorted_iff_nth_mono)
  with assms(2,3) have lo: "fst (t ! i) \<le> fst (t ! j)" by simp
  from assms(1,3) have "fst (t ! j) \<le> fst (snd (t ! j))"
    by (simp add: valid_table_def list_all_length)
  with d lo show ?thesis by (auto simp: disjoint_def)
qed

lemma binary_search_hit:
  "valid_table table \<Longrightarrow> 0 \<le> low \<Longrightarrow> high < int (length table) \<Longrightarrow>
   low \<le> k \<Longrightarrow> k \<le> high \<Longrightarrow> matches ipv4 (table ! nat k) \<Longrightarrow>
   binary_search table ipv4 low high = Inr (snd (snd (table ! nat k)))"
proof (induction table ipv4 low high rule: binary_search.induct)
  case (1 table ipv4 low high)
  define mid where "mid = (low + high) div 2"
  from "1.prems" have lh: "low \<le> high" by simp
  then have mid: "low \<le> mid" "mid \<le> high" unfolding mid_def by linarith+
  with "1.prems" have item: "getitem table mid = Some (table ! nat mid)"
    by (simp add: getitem_nth)
  have ordered: "fst (snd (table ! nat i)) < fst (table ! nat j)"
    if "0 \<le> i" "i < j" "j < int (length table)" for i j
    using valid_table_ordered [OF "1.prems"(1), of "nat i" "nat j"] that by simp
  from "1.prems"(1,2,3) mid have nonempty: "fst (table ! nat mid) \<le> fst (snd (table ! nat mid))"
    by (simp add: valid_table_def list_all_length)
  from "1.prems" have k: "fst (table ! nat k) < ipv4" "ipv4 \<le> fst (snd (table ! nat k))"
    by (simp_all add: matches_def)
  consider (down) "ipv4 \<le> fst (table ! nat mid)"
    | (found) "fst (table ! nat mid) < ipv4" "ipv4 \<le> fst (snd (table ! nat mid))"
    | (up) "fst (table ! nat mid) < ipv4" "fst (snd (table ! nat mid)) < ipv4"
    by linarith
  then show ?case
  proof cases
    case down
    then have body: "loop_body table ipv4 low high = Continue low (mid - 1)"
      by (simp add: loop_body_def mid_def [symmetric] item)
    have "k < mid"
    proof (rule ccontr)
      assume "\<not> k < mid"
      with down k have "mid < k" by (cases "k = mid") auto
      with "1.prems" mid have "fst (snd (table ! nat mid)) < fst (table ! nat k)"
        by (intro ordered) auto
      with down k nonempty show False by simp
    qed
    with "1.IH" [OF lh body] "1.prems" have
      "binary_search table ipv4 low (mid - 1) = Inr (snd (snd (table ! nat k)))"
      using mid by simp
    with lh body show ?thesis by (simp add: binary_search.simps [of table ipv4 low high])
  next
    case found
    then have body: "loop_body table ipv4 low high = Return (snd (snd (table ! nat mid)))"
      by (simp add: loop_body_def mid_def [symmetric] item)
    have "k = mid"
    proof (rule ccontr)
      assume "k \<noteq> mid"
      then consider "k < mid" | "mid < k" by linarith
      then show False
      proof cases
        case 1
        with "1.prems" mid have "fst (snd (table ! nat k)) < fst (table ! nat mid)"
          by (intro ordered) auto
        with found k show False by simp
      next
        case 2
        with "1.prems" mid have "fst (snd (table ! nat mid)) < fst (table ! nat k)"
          by (intro ordered) auto
        with found k show False by simp
      qed
    qed
    with lh body show ?thesis by (simp add: binary_search.simps [of table ipv4 low high])
  next
    case up
    then have body: "loop_body table ipv4 low high = Continue (mid + 1) high"
      by (simp add: loop_body_def mid_def [symmetric] item)
    have "mid < k"
    proof (rule ccontr)
      assume "\<not> mid < k"
      with up k have "k < mid" by (cases "k = mid") auto
      with "1.prems" mid have "fst (snd (table ! nat k)) < fst (table ! nat mid)"
        by (intro ordered) auto
      with up k show False by simp
    qed
    with "1.IH" [OF lh body] "1.prems" have
      "binary_search table ipv4 (mid + 1) high = Inr (snd (snd (table ! nat k)))"
      using mid by simp
    with lh body show ?thesis by (simp add: binary_search.simps [of table ipv4 low high])
  qed
qed

lemma binary_search_result:
  "0 \<le> low \<Longrightarrow> high < int (length table) \<Longrightarrow>
   binary_search table ipv4 low high = Inr (- 1) \<or>
   (\<exists>k. low \<le> k \<and> k \<le> high \<and> matches ipv4 (table ! nat k) \<and>
        binary_search table ipv4 low high = Inr (snd (snd (table ! nat k))))"
proof (induction table ipv4 low high rule: binary_search.induct)
  case (1 table ipv4 low high)
  show ?case
  proof (cases "low \<le> high")
    case False
    then show ?thesis by (simp add: binary_search.simps [of table ipv4 low high])
  next
    case lh: True
    define mid where "mid = (low + high) div 2"
    from lh have mid: "low \<le> mid" "mid \<le> high" unfolding mid_def by linarith+
    with "1.prems" have item: "getitem table mid = Some (table ! nat mid)"
      by (simp add: getitem_nth)
    consider (down) "ipv4 \<le> fst (table ! nat mid)"
      | (found) "fst (table ! nat mid) < ipv4" "ipv4 \<le> fst (snd (table ! nat mid))"
      | (up) "fst (table ! nat mid) < ipv4" "fst (snd (table ! nat mid)) < ipv4"
      by linarith
    then show ?thesis
    proof cases
      case down
      then have body: "loop_body table ipv4 low high = Continue low (mid - 1)"
        by (simp add: loop_body_def mid_def [symmetric] item)
      from "1.IH" [OF lh body] "1.prems" mid
      have "binary_search table ipv4 low (mid - 1) = Inr (- 1) \<or>
        (\<exists>k. low \<le> k \<and> k \<le> mid - 1 \<and> matches ipv4 (table ! nat k) \<and>
             binary_search table ipv4 low (mid - 1) = Inr (snd (snd (table ! nat k))))"
        by simp
      moreover have "binary_search table ipv4 low high = binary_search table ipv4 low (mid - 1)"
        using lh body by (simp add: binary_search.simps [of table ipv4 low high])
      ultimately show ?thesis using mid by fastforce
    next
      case found
      then have body: "loop_body table ipv4 low high = Return (snd (snd (table ! nat mid)))"
        by (simp add: loop_body_def mid_def [symmetric] item)
      then have "binary_search table ipv4 low high = Inr (snd (snd (table ! nat mid)))"
        using lh by (simp add: binary_search.simps [of table ipv4 low high])
      moreover from found have "matches ipv4 (table ! nat mid)" by (simp add: matches_def)
      ultimately show ?thesis using mid by blast
    next
      case up
      then have body: "loop_body table ipv4 low high = Continue (mid + 1) high"
        by (simp add: loop_body_def mid_def [symmetric] item)
      from "1.IH" [OF lh body] "1.prems" mid
      have "binary_search table ipv4 (mid + 1) high = Inr (- 1) \<or>
        (\<exists>k. mid + 1 \<le> k \<and> k \<le> high \<and> matches ipv4 (table ! nat k) \<and>
             binary_search table ipv4 (mid + 1) high = Inr (snd (snd (table ! nat k))))"
        by simp
      moreover have "binary_search table ipv4 low high = binary_search table ipv4 (mid + 1) high"
        using lh body by (simp add: binary_search.simps [of table ipv4 low high])
      ultimately show ?thesis using mid by fastforce
    qed
  qed
qed

lemma binary_search_returns:
  "0 \<le> low \<Longrightarrow> high < int (length table) \<Longrightarrow> \<exists>r. binary_search table ipv4 low high = Inr r"
  using binary_search_result [of low high table ipv4] by auto

lemma binary_search_entry:
  assumes "valid_table table" and "e \<in> set table" and "matches ipv4 e"
  shows "binary_search table ipv4 0 (int (length table) - 1) = Inr (snd (snd e))"
proof -
  from assms(2) obtain k where k: "k < length table" "table ! k = e"
    by (auto simp: in_set_conv_nth)
  with assms(3) have "matches ipv4 (table ! nat (int k))" by simp
  with assms(1) k(1)
  have "binary_search table ipv4 0 (int (length table) - 1) = Inr (snd (snd (table ! nat (int k))))"
    by (intro binary_search_hit) auto
  with k show ?thesis by simp
qed

lemma binary_search_miss:
  assumes "\<forall>e \<in> set table. \<not> matches ipv4 e"
  shows "binary_search table ipv4 0 (int (length table) - 1) = Inr (- 1)"
proof -
  have "\<not> matches ipv4 (table ! nat k)" if "0 \<le> k" "k \<le> int (length table) - 1" for k
    using assms that by (simp add: nth_mem)
  with binary_search_result [of 0 "int (length table) - 1" table ipv4]
  show ?thesis by auto
qed

lemma find_netblock_Number:
  "find_netblock table (Number ipv4) = binary_search table ipv4 0 (int (length table) - 1)"
  by (simp add: find_netblock_def)

lemma in_range_unique:
  assumes "valid_table table" and "i < length table" and "j < length table"
    and "in_range a (table ! i)" and "in_range a (table ! j)"
  shows "i = j"
proof (rule ccontr)
  assume "i \<noteq> j"
  then consider "i < j" | "j < i" by linarith
  then show False
  proof cases
    case 1
    from assms(1) 1 assms(3) have "fst (snd (table ! i)) < fst (table ! j)"
      by (rule valid_table_ordered)
    with assms(4,5) show False by (simp add: in_range_def)
  next
    case 2
    from assms(1) 2 assms(2) have "fst (snd (table ! j)) < fst (table ! i)"
      by (rule valid_table_ordered)
    with assms(4,5) show False by (simp add: in_range_def)
  qed
qed

subsection \<open>The low bound of a range\<close>

text \<open>
  C1. The claim: on a table that is sorted, pairwise disjoint and without empty ranges,
  \<^verbatim>\<open>find_netblock\<close> returns the ISP index of the entry whose closed interval
  \<open>[low, high]\<close> holds the address, and \<open>- 1\<close> when no interval holds it.
  The loop body leaves an entry behind when \<^verbatim>\<open>item [0] >= ipv4\<close>, so an address
  equal to the low bound of its range is not found. With the single range
  203.167.129.0 to 203.167.129.255 of ISP 0 in the table, the address
  \<open>''203.167.129.0''\<close>, as a text of either type, is packed to the low bound, lies
  in the range, and is classified as \<open>- 1\<close>, not as \<open>0\<close>.
\<close>

theorem find_netblock_low_bound_missed:
  "valid_table [(3416752384, 3416752639, 0)] \<and>
   stringip_to_number ty ''203.167.129.0'' = Inr 3416752384 \<and>
   in_range 3416752384 (3416752384, 3416752639, 0) \<and>
   find_netblock [(3416752384, 3416752639, 0)] (Text ty ''203.167.129.0'') = Inr (- 1)"
  by (cases ty)
    (simp_all add: valid_table_def in_range_def find_netblock_def loopback_def
      parse_defs search_defs)

text \<open>
  C2. The claim: two addresses \<open>a < b\<close> in the same configured range get the same ISP
  index. In a table of the two ranges 203.0.113.0 to 203.0.113.255 (ISP 3) and
  203.167.129.0 to 203.167.129.255 (ISP 0), the addresses \<open>''203.167.129.0''\<close> and
  \<open>''203.167.129.1''\<close> both lie in the second range; the first one is its low bound
  and is classified as \<open>- 1\<close>, the second one as \<open>0\<close>.
\<close>

theorem find_netblock_same_range_differs:
  "valid_table [(3405803776, 3405804031, 3), (3416752384, 3416752639, 0)] \<and>
   stringip_to_number ty ''203.167.129.0'' = Inr 3416752384 \<and>
   stringip_to_number ty ''203.167.129.1'' = Inr 3416752385 \<and>
   in_range 3416752384 (3416752384, 3416752639, 0) \<and>
   in_range 3416752385 (3416752384, 3416752639, 0) \<and>
   find_netblock [(3405803776, 3405804031, 3), (3416752384, 3416752639, 0)]
     (Text ty ''203.167.129.0'') = Inr (- 1) \<and>
   find_netblock [(3405803776, 3405804031, 3), (3416752384, 3416752639, 0)]
     (Text ty ''203.167.129.1'') = Inr 0"
  by (cases ty)
    (simp_all add: valid_table_def disjoint_def in_range_def find_netblock_def loopback_def
      parse_defs search_defs)

subsection \<open>Termination and uniqueness of the match\<close>

text \<open>
  C8. The binary search loop terminates, and on a sorted table of pairwise disjoint
  ranges at most one range holds a given address. Termination of the loop is what the
  definition of \<open>binary_search\<close> rests on; the theorem states its three parts:
  every pass through the loop body that goes on to another pass strictly shrinks
  \<open>high - low\<close>; started on the whole table, the loop returns an index (it never
  indexes outside the table); and two entries of a valid table whose closed intervals
  both hold the address are the same entry.
\<close>

theorem binary_search_terminates_match_unique:
  "(low \<le> high \<longrightarrow> loop_body table ipv4 low high = Continue low' high' \<longrightarrow>
      high' - low' < high - low) \<and>
   (\<exists>r. binary_search table ipv4 0 (int (length table) - 1) = Inr r) \<and>
   (valid_table table \<longrightarrow>
      (\<forall>i < length table. \<forall>j < length table.
         in_range ipv4 (table ! i) \<longrightarrow> in_range ipv4 (table ! j) \<longrightarrow> i = j))"
proof (intro conjI impI allI)
  assume bounds: "low \<le> high"
    and step: "loop_body table ipv4 low high = Continue low' high'"
  from bounds have "low \<le> (low + high) div 2" and "(low + high) div 2 \<le> high"
    by linarith+
  with step show "high' - low' < high - low"
    by (auto simp: loop_body_def Let_def split: option.splits if_splits)
next
  show "\<exists>r. binary_search table ipv4 0 (int (length table) - 1) = Inr r"
    by (rule binary_search_returns) simp_all
next
  fix i j
  assume "valid_table table" "i < length table" "j < length table"
    "in_range ipv4 (table ! i)" "in_range ipv4 (table ! j)"
  then show "i = j" by (rule in_range_unique)
qed

theorem binary_search_terminates_match_unique_witness:
  "(0::int) \<le> 2 \<and>
   loop_body [(10, 20, 5), (30, 40, 6), (50, 60, 7)] 55 0 2 = Continue 2 2 \<and>
   (2::int) - 2 < 2 - 0 \<and>
   (\<exists>r. binary_search [(10, 20, 5), (30, 40, 6), (50, 60, 7)] 55 0 2 = Inr r) \<and>
   valid_table [(10, 20, 5), (30, 40, 6), (50, 60, 7)] \<and>
   in_range 55 ([(10, 20, 5), (30, 40, 6), (50, 60, 7)] ! 2) \<and>
   (2::nat) < length [(10, 20, 5), (30, 40, 6), (50, 60, 7) :: netblock]"
proof -
  let ?t = "[(10, 20, 5), (30, 40, 6), (50, 60, 7)] :: netblock list"
  have body: "loop_body ?t 55 0 2 = Continue 2 2"
    by (simp add: loop_body_def getitem_def)
  have valid: "valid_table ?t"
    by (simp add: valid_table_def disjoint_def)
  have inr: "in_range 55 (?t ! 2)"
    by (simp add: in_range_def)
  note inst = binary_search_terminates_match_unique [of 0 2 ?t 55 2 2]
  from inst body have shrink: "(2::int) - 2 < 2 - 0" by simp
  from inst have ret: "\<exists>r. binary_search ?t 55 0 2 = Inr r" by simp
  from body valid inr shrink ret show ?thesis by simp
qed

section \<open>Parsing and the IPv6 scan\<close>

subsection \<open>Upper case and the prefix scan\<close>

lemma upper_char_colon: "upper_char c = CHR '':'' \<longleftrightarrow> c = CHR '':''"
  by (simp add: upper_char_def)

lemma colon_upper: "CHR '':'' \<in> set (upper s) \<longleftrightarrow> CHR '':'' \<in> set s"
proof -
  have "CHR '':'' = upper_char c \<longleftrightarrow> CHR '':'' = c" for c
    using upper_char_colon [of c] by auto
  then show ?thesis by (induction s) (simp_all add: upper_def)
qed

lemma upper_loopback: "upper loopback = loopback"
  by (simp add: upper_def upper_char_def loopback_def)

lemma loopback_no_colon: "CHR '':'' \<notin> set loopback"
  by (simp add: loopback_def)

lemma find_netblock_ipv6:
  "CHR '':'' \<in> set s \<Longrightarrow>
   find_netblock table (Text ty s) = Inr (ipv6_scan ipv6_prefixes (upper s))"
  by (auto simp: find_netblock_def loopback_def)

lemma ipv6_scan_miss:
  "\<forall>p \<in> set ps. \<not> prefix (fst p) ip \<Longrightarrow> ipv6_scan ps ip = - 1"
  by (induction ps) simp_all

lemma prefix_same_length:
  "prefix p ip \<Longrightarrow> prefix q ip \<Longrightarrow> length p = length q \<Longrightarrow> p = q"
  by (auto simp: prefix_def)

lemma ipv6_scan_hit:
  "distinct (map fst ps) \<Longrightarrow> \<forall>p \<in> set ps. length (fst p) = n \<Longrightarrow>
   (p, i) \<in> set ps \<Longrightarrow> prefix p ip \<Longrightarrow> ipv6_scan ps ip = i"
proof (induction ps)
  case Nil
  then show ?case by simp
next
  case (Cons q qs)
  show ?case
  proof (cases "prefix (fst q) ip")
    case True
    from Cons.prems(2,3) have "length (fst q) = length p" by auto
    with True Cons.prems(4) have "fst q = p" by (auto dest: prefix_same_length)
    with Cons.prems(1,3) have "q = (p, i)" by (auto simp: image_iff)
    with True show ?thesis by simp
  next
    case False
    with Cons.prems have "(p, i) \<in> set qs" by auto
    with Cons False show ?thesis by simp
  qed
qed

lemma ipv6_scan_any_order:
  assumes "set ps = set ipv6_prefixes" and "distinct (map fst ps)"
  shows "ipv6_scan ps ip = ipv6_scan ipv6_prefixes ip"
proof (cases "\<exists>p \<in> set ipv6_prefixes. prefix (fst p) ip")
  case True
  then obtain p i where pi: "(p, i) \<in> set ipv6_prefixes" "prefix p ip" by auto
  have len: "\<forall>p \<in> set ipv6_prefixes. length (fst p) = 10"
    by (simp add: ipv6_prefixes_def)
  have "distinct (map fst ipv6_prefixes)"
    by (simp add: ipv6_prefixes_def)
  then have "ipv6_scan ipv6_prefixes ip = i" using len pi by (rule ipv6_scan_hit)
  moreover from assms(2) have "ipv6_scan ps ip = i"
    using len pi unfolding assms(1) [symmetric] by (rule ipv6_scan_hit)
  ultimately show ?thesis by simp
next
  case False
  then show ?thesis using assms(1) by (simp add: ipv6_scan_miss)
qed

subsection \<open>Fields, octets and the registry\<close>

lemma pack_fields_rejects:
  "f \<in> set items \<Longrightarrow> py_int ty f = None \<Longrightarrow> pack_fields ty tot items = Inl ValueError"
  by (induction items arbitrary: tot) (auto split: option.splits)

lemma isdigit_not_space: "isdigit c \<Longrightarrow> \<not> isspace c"
  by (auto simp: isdigit_def isspace_def)

lemma isdigit_not_sign: "isdigit c \<Longrightarrow> c \<noteq> CHR ''-'' \<and> c \<noteq> CHR ''+''"
  by (auto simp: isdigit_def)

lemma digit_value_range: "isdigit c \<Longrightarrow> 0 \<le> digit_value c \<and> digit_value c \<le> 9"
  by (auto simp: isdigit_def digit_value_def)

lemma isdigit_not_unicode_space: "isdigit c \<Longrightarrow> \<not> unicode_isspace c"
  by (auto simp: isdigit_def unicode_isspace_def isspace_def)

lemma encode_decimal_digits: "list_all isdigit ds \<Longrightarrow> encode_decimal ds = ds"
  by (induction ds) (simp_all add: encode_decimal_def isdigit_not_unicode_space)

lemma py_int_str_digits:
  assumes "ds \<noteq> []" and "list_all isdigit ds"
  shows "py_int_str ds = Some (decimal ds)"
proof -
  from assms have first: "isdigit (hd ds)" by (cases ds) simp_all
  then have front: "dropWhile isspace ds = ds"
    using assms(1) by (simp add: dropWhile_eq_self_iff isdigit_not_space)
  from first have unsigned: "hd ds \<noteq> CHR ''-''" "hd ds \<noteq> CHR ''+''"
    by (simp_all add: isdigit_not_sign)
  from assms(2) have all: "takeWhile isdigit ds = ds" "dropWhile isdigit ds = []"
    by (simp_all add: list_all_iff takeWhile_eq_all_conv)
  from assms(1) show ?thesis
    by (simp add: py_int_str_def Let_def front unsigned all)
qed

lemma py_int_digits:
  assumes "ds \<noteq> []" and "list_all isdigit ds"
  shows "py_int ty ds = Some (decimal ds)"
  using assms by (cases ty) (simp_all add: py_int_str_digits encode_decimal_digits)

lemma foldl_decimal_nonneg:
  "list_all isdigit ds \<Longrightarrow> 0 \<le> acc \<Longrightarrow> 0 \<le> foldl (\<lambda>acc c. acc * 10 + digit_value c) acc ds"
proof (induction ds arbitrary: acc)
  case Nil
  then show ?case by simp
next
  case (Cons d ds)
  from Cons.prems have "0 \<le> digit_value d" by (simp add: digit_value_range)
  with Cons.prems have "0 \<le> acc * 10 + digit_value d" by simp
  with Cons show ?case by simp
qed

lemma decimal_nonneg: "list_all isdigit ds \<Longrightarrow> 0 \<le> decimal ds"
  by (simp add: decimal_def foldl_decimal_nonneg)

lemma octet_parses:
  "octet f \<Longrightarrow> py_int ty f = Some (decimal f) \<and> 0 \<le> decimal f \<and> decimal f \<le> 255"
  by (simp add: octet_def py_int_digits decimal_nonneg)

lemma split_nonempty: "split sep s \<noteq> []"
  by (induction s) (auto split: list.splits)

lemma split_covers:
  "c \<in> set s \<Longrightarrow> c \<noteq> sep \<Longrightarrow> \<exists>f \<in> set (split sep s). c \<in> set f"
proof (induction s)
  case Nil
  then show ?case by simp
next
  case (Cons d ds)
  obtain f fs where fs: "split sep ds = f # fs"
    using split_nonempty [of sep ds] by (cases "split sep ds") auto
  show ?case
  proof (cases "d = sep")
    case True
    with Cons show ?thesis by auto
  next
    case False
    show ?thesis
    proof (cases "c = d")
      case True
      with False fs show ?thesis by simp
    next
      case neq: False
      with Cons obtain g where "g \<in> set (split sep ds)" "c \<in> set g" by auto
      with False fs show ?thesis by auto
    qed
  qed
qed

lemma dotted_quad_no_colon:
  assumes "dotted_quad s"
  shows "CHR '':'' \<notin> set s"
proof
  assume "CHR '':'' \<in> set s"
  then obtain f where f: "f \<in> set (split (CHR ''.'') s)" "CHR '':'' \<in> set f"
    using split_covers [of "CHR '':''" s "CHR ''.''"] by auto
  from assms f(1) have "list_all isdigit f"
    by (simp add: dotted_quad_def Let_def list_all_iff octet_def)
  with f(2) have "isdigit (CHR '':'')" by (simp add: list_all_iff)
  then show False by (simp add: isdigit_def)
qed

lemma dotted_quad_parses:
  assumes "dotted_quad s"
  shows "\<exists>n. stringip_to_number ty s = Inr n \<and> 0 \<le> n \<and> n < 2 ^ 32"
proof -
  from assms have len: "length (split (CHR ''.'') s) = 4"
    and oct: "list_all octet (split (CHR ''.'') s)"
    by (simp_all add: dotted_quad_def Let_def)
  from len obtain a b c d where quad: "split (CHR ''.'') s = [a, b, c, d]"
    by (auto simp: numeral_eq_Suc length_Suc_conv)
  with oct have "octet a" "octet b" "octet c" "octet d" by simp_all
  then have p: "py_int ty a = Some (decimal a)" "py_int ty b = Some (decimal b)"
      "py_int ty c = Some (decimal c)" "py_int ty d = Some (decimal d)"
    and r: "0 \<le> decimal a" "decimal a \<le> 255" "0 \<le> decimal b" "decimal b \<le> 255"
      "0 \<le> decimal c" "decimal c \<le> 255" "0 \<le> decimal d" "decimal d \<le> 255"
    by (simp_all add: octet_parses)
  have "stringip_to_number ty s =
      Inr (((decimal a * 256 + decimal b) * 256 + decimal c) * 256 + decimal d)"
    by (simp add: stringip_to_number_def quad p push_bit_eq_mult)
  moreover from r have "0 \<le> ((decimal a * 256 + decimal b) * 256 + decimal c) * 256 + decimal d"
    by simp
  moreover from r have "((decimal a * 256 + decimal b) * 256 + decimal c) * 256 + decimal d < 2 ^ 32"
    by simp
  ultimately show ?thesis by blast
qed

lemma find_netblock_ipv4:
  "CHR '':'' \<notin> set s \<Longrightarrow> s \<noteq> loopback \<Longrightarrow>
   find_netblock table (Text ty s) =
     (case stringip_to_number ty s of
        Inl e \<Rightarrow> Inl e
      | Inr ipv4 \<Rightarrow> binary_search table ipv4 0 (int (length table) - 1))"
  by (simp add: find_netblock_def)

lemma test_address_number: "stringip_to_number ty test_address = Inr 3416752388"
  by (cases ty) (simp_all add: test_address_def parse_defs)

lemma find_netblock_loopback:
  "find_netblock table (Text ty loopback) = find_netblock table (Text ty' test_address)"
  by (simp add: find_netblock_def loopback_def test_address_def
      test_address_number [unfolded test_address_def])

lemma isps_truthy:
  assumes "map_of isps idx = Some r"
  shows "isp_filter r \<noteq> Some [] \<and> isp_allow r \<noteq> Some [] \<and> isp_test r \<noteq> Some []"
proof -
  from assms have "(idx, r) \<in> set isps" by (rule map_of_SomeD)
  then show ?thesis by (auto simp: isps_def)
qed

lemma isps_unknown:
  "map_of isps (- 1) = Some r \<Longrightarrow>
   isp_name r = ''Unknown'' \<and> isp_filter r = Some ''# No specific content server for your ISP''"
  by (auto simp: isps_def)

subsection \<open>Classification of a text address, and the composed bundle\<close>

lemma find_netblock_Text:
  "find_netblock table (Text ty raw) =
     (let s = (if raw = loopback then test_address else raw)
      in if CHR '':'' \<in> set s then Inr (ipv6_scan ipv6_prefixes (upper s))
         else (case stringip_to_number ty s of
                 Inl e \<Rightarrow> Inl e
               | Inr ipv4 \<Rightarrow> binary_search table ipv4 0 (int (length table) - 1)))"
proof (cases "raw = loopback")
  case True
  have "find_netblock table (Text ty raw) = find_netblock table (Text ty test_address)"
    unfolding True by (rule find_netblock_loopback)
  with True show ?thesis
    by (simp add: find_netblock_def Let_def loopback_def test_address_def)
next
  case False
  then show ?thesis by (simp add: find_netblock_def Let_def)
qed

lemma in_range_if_matches: "matches a e \<Longrightarrow> in_range a e"
  by (simp add: matches_def in_range_def)

lemma unmatched_classified:
  assumes "unmatched table ty (if raw = loopback then test_address else raw)"
  shows "find_netblock table (Text ty raw) = Inr (- 1)"
proof -
  define s where "s = (if raw = loopback then test_address else raw)"
  show ?thesis
  proof (cases "CHR '':'' \<in> set s")
    case True
    with assms have "\<forall>p \<in> set ipv6_prefixes. \<not> prefix (fst p) (upper s)"
      by (simp add: unmatched_def s_def [symmetric] list_all_iff)
    then have "ipv6_scan ipv6_prefixes (upper s) = - 1" by (rule ipv6_scan_miss)
    with True show ?thesis by (simp add: find_netblock_Text s_def [symmetric])
  next
    case False
    with assms obtain n where n: "stringip_to_number ty s = Inr n"
      and out: "list_all (\<lambda>e. \<not> in_range n e) table"
      by (auto simp: unmatched_def s_def [symmetric] split: sum.splits)
    from out have "\<forall>e \<in> set table. \<not> matches n e"
      by (auto simp: list_all_iff dest: in_range_if_matches)
    then have "binary_search table n 0 (int (length table) - 1) = Inr (- 1)"
      by (rule binary_search_miss)
    with False n show ?thesis by (simp add: find_netblock_Text s_def [symmetric])
  qed
qed

lemma bundle_with_index:
  assumes "find_netblock table (source_of self) = Inr idx"
    and "map_of registry idx = Some r"
  shows "bundle_with registry table self =
     Inr \<lparr>latest = latest_version,
          download = code_file_base @ latest_file,
          country = py_or (header_country self) ''Unknown'',
          ispname = isp_name r,
          filterip = isp_server r,
          filterrule = py_or (isp_filter r) (isp_server r),
          allow = py_or (isp_allow r) [],
          test = (case isp_test r of None \<Rightarrow> None | Some t \<Rightarrow> if t = [] then None else Some t)\<rparr>"
  using assms by (simp add: bundle_with_def Let_def)

lemma bundle_of_index:
  assumes "find_netblock table (source_of self) = Inr idx"
    and "map_of isps idx = Some r"
  shows "bundle_of table self =
     Inr \<lparr>latest = latest_version,
          download = code_file_base @ latest_file,
          country = py_or (header_country self) ''Unknown'',
          ispname = isp_name r,
          filterip = isp_server r,
          filterrule = py_or (isp_filter r) (isp_server r),
          allow = py_or (isp_allow r) [],
          test = (case isp_test r of None \<Rightarrow> None | Some t \<Rightarrow> if t = [] then None else Some t)\<rparr>"
  unfolding bundle_of_def using assms by (rule bundle_with_index)

lemma isps_unknown_present: "\<exists>r. map_of isps (- 1) = Some r"
  by (simp add: isps_def)

lemma isps_iinet_present: "\<exists>r. map_of isps 12 = Some r \<and> isp_name r = ''iiNet Australia''"
  by (simp add: isps_def)

section \<open>Classification and resolution\<close>

subsection \<open>Malformed IPv4 text\<close>

text \<open>The two types of text differ in what \<^verbatim>\<open>int\<close> takes as white space: a field
  that starts with the code point A0 is a number in a \<^verbatim>\<open>unicode\<close> object, and an
  error in a \<^verbatim>\<open>str\<close>.\<close>

lemma no_break_space_field:
  "stringip_to_number Unicode (CHR 0xA0 # ''5.1'') = Inr 1281 \<and>
   stringip_to_number Str (CHR 0xA0 # ''5.1'') = Inl ValueError"
  by (simp add: parse_defs)

text \<open>
  C3, as stated: every malformed IPv4 text (wrong number of octets, a component that is
  not a number, an octet above 255) makes classification fail instead of giving an ISP
  index. \<^verbatim>\<open>stringip_to_number\<close> checks neither the number of fields nor their size.
  \<open>''999.1.1.1''\<close> is no dotted quad, is packed to \<open>999 * 2^24 + 2^16 + 2^8 + 1\<close> and
  classified as \<open>- 1\<close>; \<open>''1.2.3''\<close> is packed to \<open>66051\<close>, the number of
  \<open>0.1.2.3\<close>, and gets the ISP index of the range around that number.
\<close>

theorem malformed_ipv4_classified:
  "\<not> dotted_quad ''999.1.1.1'' \<and>
   stringip_to_number Unicode ''999.1.1.1'' = Inr 16760504577 \<and>
   find_netblock [(10, 20, 5)] (Text Unicode ''999.1.1.1'') = Inr (- 1) \<and>
   find_netblock [(10, 20, 5)] (Text Str ''999.1.1.1'') = Inr (- 1) \<and>
   \<not> dotted_quad ''1.2.3'' \<and>
   find_netblock [(66000, 67000, 3)] (Text Unicode ''1.2.3'') = Inr 3 \<and>
   find_netblock [(66000, 67000, 3)] (Text Str ''1.2.3'') = Inr 3"
  by (simp add: dotted_quad_def octet_def find_netblock_def loopback_def parse_defs search_defs)

text \<open>
  C3, amended: a text address of either type without a colon, other than the loopback
  literal, that has a field between dots which \<^verbatim>\<open>int\<close> rejects for a text of this
  type (a component that is not a number, the empty field among them) makes
  \<^verbatim>\<open>find_netblock\<close> raise \<^verbatim>\<open>ValueError\<close>, whatever the table.
\<close>

theorem non_numeric_field_rejected:
  assumes "CHR '':'' \<notin> set s" and "s \<noteq> ''127.0.0.1''"
    and "f \<in> set (split (CHR ''.'') s)" and "py_int ty f = None"
  shows "find_netblock table (Text ty s) = Inl ValueError"
proof -
  from assms(3,4) have "stringip_to_number ty s = Inl ValueError"
    unfolding stringip_to_number_def by (rule pack_fields_rejects)
  moreover from assms(1,2) have "find_netblock table (Text ty s) =
      (case stringip_to_number ty s of
         Inl e \<Rightarrow> Inl e
       | Inr ipv4 \<Rightarrow> binary_search table ipv4 0 (int (length table) - 1))"
    by (intro find_netblock_ipv4) (simp_all add: loopback_def)
  ultimately show ?thesis by simp
qed

theorem non_numeric_field_rejected_witness:
  "CHR '':'' \<notin> set ''1.x.3.4'' \<and> ''x'' \<in> set (split (CHR ''.'') ''1.x.3.4'') \<and>
   py_int Unicode ''x'' = None \<and>
   find_netblock [(10, 20, 5)] (Text Unicode ''1.x.3.4'') = Inl ValueError"
proof -
  have c: "CHR '':'' \<notin> set ''1.x.3.4''" by simp
  have n: "''1.x.3.4'' \<noteq> ''127.0.0.1''" by simp
  have f: "''x'' \<in> set (split (CHR ''.'') ''1.x.3.4'')" by simp
  have p: "py_int Unicode ''x'' = None"
    by (simp add: parse_defs)
  from non_numeric_field_rejected [OF c n f p, of "[(10, 20, 5)]"] c f p
  show ?thesis by simp
qed

subsection \<open>An address that matches nothing\<close>

text \<open>
  C4. An address that parses and matches no configured IPv4 range and no configured IPv6
  prefix is classified as \<open>- 1\<close>, and the bundle for it is returned (no exception)
  with the name and the filter rule of the record \<open>- 1\<close> of the registry:
  \<open>''Unknown''\<close> and \<open>''# No specific content server for your ISP''\<close>. The address
  that is matched is the one that is classified: the test address in place of the
  loopback literal, any other text as it is. The source address of the request is the
  argument \<^verbatim>\<open>ip\<close> where the request has one, and the peer address otherwise.
\<close>

theorem unmatched_address_resolves_to_Unknown:
  assumes "unmatched table ty (if raw = ''127.0.0.1'' then ''203.167.129.4'' else raw)"
    and "source_of self = Text ty raw"
  shows "find_netblock table (Text ty raw) = Inr (- 1) \<and>
         (\<exists>b r. bundle_of table self = Inr b \<and> map_of isps (- 1) = Some r \<and>
            ispname b = isp_name r \<and> ispname b = ''Unknown'' \<and>
            isp_filter r = Some (filterrule b) \<and>
            filterrule b = ''# No specific content server for your ISP'')"
proof -
  from assms(1) have miss: "find_netblock table (Text ty raw) = Inr (- 1)"
    by (intro unmatched_classified) (simp add: loopback_def test_address_def split: if_splits)
  obtain r where r: "map_of isps (- 1) = Some r"
    using isps_unknown_present by blast
  then have u: "isp_name r = ''Unknown''"
    "isp_filter r = Some ''# No specific content server for your ISP''"
    by (simp_all add: isps_unknown)
  from miss assms(2) r have "bundle_of table self =
     Inr \<lparr>latest = latest_version,
          download = code_file_base @ latest_file,
          country = py_or (header_country self) ''Unknown'',
          ispname = isp_name r,
          filterip = isp_server r,
          filterrule = py_or (isp_filter r) (isp_server r),
          allow = py_or (isp_allow r) [],
          test = (case isp_test r of None \<Rightarrow> None | Some t \<Rightarrow> if t = [] then None else Some t)\<rparr>"
    by (intro bundle_of_index) simp_all
  with u r have "\<exists>b. bundle_of table self = Inr b \<and> map_of isps (- 1) = Some r \<and>
            ispname b = isp_name r \<and> ispname b = ''Unknown'' \<and>
            isp_filter r = Some (filterrule b) \<and>
            filterrule b = ''# No specific content server for your ISP''"
    by (simp add: py_or_def)
  with miss show ?thesis by blast
qed

theorem unmatched_address_resolves_to_Unknown_witness:
  "unmatched [(10, 20, 5)] Str ''8.8.8.8'' \<and>
   source_of \<lparr>arg_ip = None, remote_addr = ''8.8.8.8'', header_country = None\<rparr> =
     Text Str ''8.8.8.8'' \<and>
   find_netblock [(10, 20, 5)] (Text Str ''8.8.8.8'') = Inr (- 1) \<and>
   (\<exists>b r. bundle_of [(10, 20, 5)]
             \<lparr>arg_ip = None, remote_addr = ''8.8.8.8'', header_country = None\<rparr> = Inr b \<and>
          map_of isps (- 1) = Some r \<and>
          ispname b = isp_name r \<and> ispname b = ''Unknown'' \<and>
          isp_filter r = Some (filterrule b) \<and>
          filterrule b = ''# No specific content server for your ISP'')"
proof -
  let ?self = "\<lparr>arg_ip = None, remote_addr = ''8.8.8.8'', header_country = None\<rparr>"
  have u: "unmatched [(10, 20, 5)] Str ''8.8.8.8''"
    by (simp add: unmatched_def in_range_def parse_defs)
  then have u': "unmatched [(10, 20, 5)] Str
      (if ''8.8.8.8'' = ''127.0.0.1'' then ''203.167.129.4'' else ''8.8.8.8'')"
    by simp
  have src: "source_of ?self = Text Str ''8.8.8.8''"
    by (simp add: source_of_def)
  from unmatched_address_resolves_to_Unknown [OF u' src] u src
  show ?thesis by simp
qed

subsection \<open>The fields of the bundle\<close>

text \<open>For the records of the registry \<^verbatim>\<open>isps\<close> each optional value that is there is
  also true: no record has an empty filter rule, allow rule or test dictionary.\<close>

lemma bundle_of_isps_fields:
  assumes "find_netblock table (source_of self) = Inr idx"
    and "map_of isps idx = Some r"
  shows "\<exists>b. bundle_of table self = Inr b \<and>
           ispname b = isp_name r \<and>
           filterip b = isp_server r \<and>
           filterrule b = (case isp_filter r of None \<Rightarrow> isp_server r | Some f \<Rightarrow> f) \<and>
           allow b = (case isp_allow r of None \<Rightarrow> [] | Some a \<Rightarrow> a) \<and>
           test b = isp_test r"
proof -
  from assms(2) have truthy: "isp_filter r \<noteq> Some []" "isp_allow r \<noteq> Some []"
    "isp_test r \<noteq> Some []"
    by (simp_all add: isps_truthy)
  from truthy(1) have f: "py_or (isp_filter r) (isp_server r) =
      (case isp_filter r of None \<Rightarrow> isp_server r | Some f \<Rightarrow> f)"
    by (simp add: py_or_def split: option.splits)
  from truthy(2) have a: "py_or (isp_allow r) [] = (case isp_allow r of None \<Rightarrow> [] | Some a \<Rightarrow> a)"
    by (simp add: py_or_def split: option.splits)
  from truthy(3) have t:
    "(case isp_test r of None \<Rightarrow> None | Some t \<Rightarrow> if t = [] then None else Some t) = isp_test r"
    by (simp split: option.splits)
  show ?thesis
    unfolding bundle_of_index [OF assms] using f a t by simp
qed

text \<open>
  C5, as stated: for every ISP record that the composition resolves, \<open>filterrule\<close> is
  the filter rule of the record when it is present, and \<open>test\<close> is in the bundle if and
  only if the record carries a test specification. The composition tests the values
  for truth (\<^verbatim>\<open>isp.get ('filter') or isp ['server']\<close>, \<^verbatim>\<open>if test\<close>), not for
  presence. In a registry whose record 0 has the server \<open>''192.0.2.1''\<close>, the empty
  string as its filter rule and the empty dictionary as its test, the bundle for an
  address of ISP 0 has the server as \<open>filterrule\<close>, not the filter rule that is
  present, and has no \<open>test\<close>.
\<close>

theorem bundle_truth_not_presence:
  "find_netblock []
     (source_of \<lparr>arg_ip = Some ''2001:4400::1'', remote_addr = ''192.0.2.7'',
                 header_country = Some ''NZ''\<rparr>) = Inr 0 \<and>
   bundle_with
     [(0, \<lparr>isp_name = ''Example'', isp_server = ''192.0.2.1'', isp_filter = Some [],
           isp_allow = None, isp_test = Some []\<rparr>)]
     []
     \<lparr>arg_ip = Some ''2001:4400::1'', remote_addr = ''192.0.2.7'',
      header_country = Some ''NZ''\<rparr> =
   Inr \<lparr>latest = ''0.6.1.0'',
        download = ''http://steam-limiter.googlecode.com/files/steamlimit-0.6.1.0.exe'',
        country = ''NZ'', ispname = ''Example'', filterip = ''192.0.2.1'',
        filterrule = ''192.0.2.1'', allow = [], test = None\<rparr>"
  by (simp add: bundle_with_def source_of_def find_netblock_def loopback_def upper_def
      upper_char_def ipv6_prefixes_def py_or_def latest_version_def code_file_base_def
      latest_file_def)

text \<open>
  C5, amended: for every record \<open>r\<close> of any registry that the classification of the
  source address leads to, the bundle is returned with \<open>ispname\<close> the name of \<open>r\<close> and
  \<open>filterip\<close> its server; \<open>filterrule\<close> is its filter rule where it has one that is
  not empty, and its server where it has none or an empty one; \<open>allow\<close> is its allow
  rule where it has one and the empty string otherwise; \<open>country\<close> is
  \<open>''Unknown''\<close> when the request carries no country header (or an empty one) and the
  header otherwise; and \<open>test\<close> is in the bundle exactly when \<open>r\<close> has a test
  dictionary that is not empty, which it then equals.
\<close>

theorem bundle_composition:
  assumes "find_netblock table (source_of self) = Inr idx"
    and "map_of registry idx = Some r"
  shows "\<exists>b. bundle_with registry table self = Inr b \<and>
           ispname b = isp_name r \<and>
           filterip b = isp_server r \<and>
           (isp_filter r = None \<longrightarrow> filterrule b = isp_server r) \<and>
           (isp_filter r = Some [] \<longrightarrow> filterrule b = isp_server r) \<and>
           (\<forall>f. isp_filter r = Some f \<longrightarrow> f \<noteq> [] \<longrightarrow> filterrule b = f) \<and>
           allow b = (case isp_allow r of None \<Rightarrow> [] | Some a \<Rightarrow> a) \<and>
           (header_country self = None \<longrightarrow> country b = ''Unknown'') \<and>
           (header_country self = Some [] \<longrightarrow> country b = ''Unknown'') \<and>
           (\<forall>c. header_country self = Some c \<longrightarrow> c \<noteq> [] \<longrightarrow> country b = c) \<and>
           (isp_test r = None \<longrightarrow> test b = None) \<and>
           (isp_test r = Some [] \<longrightarrow> test b = None) \<and>
           (\<forall>t. isp_test r = Some t \<longrightarrow> t \<noteq> [] \<longrightarrow> test b = Some t)"
proof -
  have a: "py_or (isp_allow r) [] = (case isp_allow r of None \<Rightarrow> [] | Some a \<Rightarrow> a)"
    by (simp add: py_or_def split: option.splits)
  show ?thesis
    unfolding bundle_with_index [OF assms] by (simp add: a) (simp add: py_or_def)
qed

theorem bundle_composition_witness:
  "find_netblock [(0, 100, 30)]
     (source_of \<lparr>arg_ip = Some ''0.0.0.50'', remote_addr = ''10.0.0.1'',
                 header_country = None\<rparr>) = Inr 30 \<and>
   (\<exists>b r. map_of isps 30 = Some r \<and>
      bundle_with isps [(0, 100, 30)]
        \<lparr>arg_ip = Some ''0.0.0.50'', remote_addr = ''10.0.0.1'', header_country = None\<rparr> = Inr b \<and>
      ispname b = ''Internet Solutions (Johannesburg, South Africa)'' \<and>
      filterip b = ''196.38.180.3'' \<and>
      filterrule b = ''*:27030=steam.isgaming.co.za'' \<and>
      allow b = [] \<and>
      country b = ''Unknown'' \<and>
      test b = isp_test r) \<and>
   find_netblock []
     (source_of \<lparr>arg_ip = None, remote_addr = ''2001:4400::1'',
                 header_country = Some ''NZ''\<rparr>) = Inr 0 \<and>
   (\<exists>b. bundle_with
          [(0, \<lparr>isp_name = ''Example'', isp_server = ''192.0.2.1'', isp_filter = None,
                isp_allow = Some ''//example.net=*'', isp_test = None\<rparr>)]
          []
          \<lparr>arg_ip = None, remote_addr = ''2001:4400::1'', header_country = Some ''NZ''\<rparr> = Inr b \<and>
      filterrule b = ''192.0.2.1'' \<and>
      allow b = ''//example.net=*'' \<and>
      country b = ''NZ'' \<and>
      test b = None) \<and>
   (\<exists>b. bundle_with
          [(0, \<lparr>isp_name = ''Example'', isp_server = ''192.0.2.1'', isp_filter = Some [],
                isp_allow = None, isp_test = Some []\<rparr>)]
          []
          \<lparr>arg_ip = None, remote_addr = ''2001:4400::1'', header_country = Some []\<rparr> = Inr b \<and>
      filterrule b = ''192.0.2.1'' \<and>
      country b = ''Unknown'' \<and>
      test b = None)"
proof -
  let ?self = "\<lparr>arg_ip = Some ''0.0.0.50'', remote_addr = ''10.0.0.1'', header_country = None\<rparr>"
  have cls: "find_netblock [(0, 100, 30)] (source_of ?self) = Inr 30"
    by (simp add: source_of_def find_netblock_def loopback_def parse_defs search_defs)
  obtain r where r: "map_of isps 30 = Some r"
    and vals: "isp_name r = ''Internet Solutions (Johannesburg, South Africa)''"
      "isp_server r = ''196.38.180.3''" "isp_filter r = Some ''*:27030=steam.isgaming.co.za''"
      "isp_allow r = None"
    and t: "isp_test r \<noteq> None" "isp_test r \<noteq> Some []"
    by (simp add: isps_def)
  from t obtain ts where ts: "isp_test r = Some ts" "ts \<noteq> []" by auto
  from bundle_composition [OF cls r] vals r ts
  have first: "\<exists>b r. map_of isps 30 = Some r \<and>
      bundle_with isps [(0, 100, 30)] ?self = Inr b \<and>
      ispname b = ''Internet Solutions (Johannesburg, South Africa)'' \<and>
      filterip b = ''196.38.180.3'' \<and>
      filterrule b = ''*:27030=steam.isgaming.co.za'' \<and>
      allow b = [] \<and>
      country b = ''Unknown'' \<and>
      test b = isp_test r"
    by auto
  let ?absent = "\<lparr>isp_name = ''Example'', isp_server = ''192.0.2.1'', isp_filter = None,
      isp_allow = Some ''//example.net=*'', isp_test = None\<rparr>"
  let ?empty = "\<lparr>isp_name = ''Example'', isp_server = ''192.0.2.1'', isp_filter = Some [],
      isp_allow = None, isp_test = Some []\<rparr>"
  let ?nz = "\<lparr>arg_ip = None, remote_addr = ''2001:4400::1'', header_country = Some ''NZ''\<rparr>"
  let ?blank = "\<lparr>arg_ip = None, remote_addr = ''2001:4400::1'', header_country = Some []\<rparr>"
  have cls_nz: "find_netblock [] (source_of ?nz) = Inr 0"
    by (simp add: source_of_def find_netblock_def loopback_def upper_def upper_char_def
        ipv6_prefixes_def)
  have cls_blank: "find_netblock [] (source_of ?blank) = Inr 0"
    by (simp add: source_of_def find_netblock_def loopback_def upper_def upper_char_def
        ipv6_prefixes_def)
  have reg_absent: "map_of [(0, ?absent)] (0::int) = Some ?absent" by simp
  have reg_empty: "map_of [(0, ?empty)] (0::int) = Some ?empty" by simp
  from bundle_composition [OF cls_nz reg_absent]
  have second: "\<exists>b. bundle_with [(0, ?absent)] [] ?nz = Inr b \<and>
      filterrule b = ''192.0.2.1'' \<and> allow b = ''//example.net=*'' \<and>
      country b = ''NZ'' \<and> test b = None"
    by auto
  from bundle_composition [OF cls_blank reg_empty]
  have third: "\<exists>b. bundle_with [(0, ?empty)] [] ?blank = Inr b \<and>
      filterrule b = ''192.0.2.1'' \<and> country b = ''Unknown'' \<and> test b = None"
    by auto
  from cls first cls_nz second third show ?thesis by blast
qed

subsection \<open>The loopback literal\<close>

text \<open>
  C6, as stated: the loopback literal is classified as the test address is, and the
  result is a fixed ISP index other than \<open>- 1\<close>. What the index is lies with the table.
  On the valid table of the single range 203.0.113.0 to 203.0.113.255, which does not
  hold the test address, the loopback literal is classified as \<open>- 1\<close>.
\<close>

theorem loopback_unknown_on_other_table:
  "valid_table [(3405803776, 3405804031, 3)] \<and>
   find_netblock [(3405803776, 3405804031, 3)] (Text Str ''127.0.0.1'') = Inr (- 1) \<and>
   find_netblock [(3405803776, 3405804031, 3)] (Text Unicode ''127.0.0.1'') = Inr (- 1)"
  by (simp add: valid_table_def find_netblock_def loopback_def test_address_def
      parse_defs search_defs)

text \<open>
  C6, amended: \<^verbatim>\<open>find_netblock\<close> classifies the loopback literal \<open>''127.0.0.1''\<close> as
  it classifies the test address \<open>''203.167.129.4''\<close>, whatever the table and the type
  of the two texts. The test address is packed to \<open>3416752388\<close>. On a valid table
  with an entry whose low bound is below this number and whose high bound is not, the
  result is the ISP index of that entry; on a table with no range that holds this
  number, the result is \<open>- 1\<close>.
\<close>

theorem loopback_classified_as_test_address:
  "find_netblock table (Text ty ''127.0.0.1'') = find_netblock table (Text ty' ''203.167.129.4'') \<and>
   stringip_to_number ty' ''203.167.129.4'' = Inr 3416752388 \<and>
   (valid_table table \<longrightarrow> e \<in> set table \<longrightarrow> matches 3416752388 e \<longrightarrow>
      find_netblock table (Text ty ''127.0.0.1'') = Inr (snd (snd e))) \<and>
   ((\<forall>e \<in> set table. \<not> in_range 3416752388 e) \<longrightarrow>
      find_netblock table (Text ty ''127.0.0.1'') = Inr (- 1))"
proof -
  have eq: "find_netblock table (Text ty ''127.0.0.1'') =
      find_netblock table (Text ty' ''203.167.129.4'')"
    using find_netblock_loopback [of table ty ty'] by (simp add: loopback_def test_address_def)
  have num: "stringip_to_number ty' ''203.167.129.4'' = Inr 3416752388"
    using test_address_number [of ty'] by (simp add: test_address_def)
  have search: "find_netblock table (Text ty' ''203.167.129.4'') =
      binary_search table 3416752388 0 (int (length table) - 1)"
    by (simp add: find_netblock_ipv4 loopback_def num)
  have hit: "find_netblock table (Text ty' ''203.167.129.4'') = Inr (snd (snd e))"
    if "valid_table table" "e \<in> set table" "matches 3416752388 e"
    unfolding search using that by (rule binary_search_entry)
  have miss: "find_netblock table (Text ty' ''203.167.129.4'') = Inr (- 1)"
    if "\<forall>e \<in> set table. \<not> in_range 3416752388 e"
  proof -
    from that have "\<forall>e \<in> set table. \<not> matches 3416752388 e"
      by (auto dest: in_range_if_matches)
    then show ?thesis unfolding search by (rule binary_search_miss)
  qed
  from eq num hit miss show ?thesis by simp
qed

theorem loopback_classified_as_test_address_witness:
  "valid_table [(3416752384, 3416752639, 0)] \<and>
   matches 3416752388 (3416752384, 3416752639, 0) \<and>
   find_netblock [(3416752384, 3416752639, 0)] (Text Unicode ''127.0.0.1'') = Inr 0 \<and>
   find_netblock [(3416752384, 3416752639, 0)] (Text Str ''203.167.129.4'') = Inr 0 \<and>
   list_all (\<lambda>e. \<not> in_range 3416752388 e) [(3405803776, 3405804031, 3)] \<and>
   find_netblock [(3405803776, 3405804031, 3)] (Text Unicode ''127.0.0.1'') = Inr (- 1)"
proof -
  have v: "valid_table [(3416752384, 3416752639, 0)]"
    by (simp add: valid_table_def)
  have m: "matches 3416752388 (3416752384, 3416752639, 0)"
    by (simp add: matches_def)
  have mem: "((3416752384, 3416752639, 0) :: netblock) \<in> set [(3416752384, 3416752639, 0)]"
    by simp
  note inst = loopback_classified_as_test_address
    [of "[(3416752384, 3416752639, 0)]" Unicode Str "(3416752384, 3416752639, 0)"]
  from inst v mem m
  have "find_netblock [(3416752384, 3416752639, 0)] (Text Unicode ''127.0.0.1'') =
      Inr (snd (snd ((3416752384, 3416752639, 0) :: netblock)))"
    by blast
  then have lo: "find_netblock [(3416752384, 3416752639, 0)] (Text Unicode ''127.0.0.1'') = Inr 0"
    by simp
  from inst
  have "find_netblock [(3416752384, 3416752639, 0)] (Text Unicode ''127.0.0.1'') =
      find_netblock [(3416752384, 3416752639, 0)] (Text Str ''203.167.129.4'')"
    by blast
  with lo have te: "find_netblock [(3416752384, 3416752639, 0)] (Text Str ''203.167.129.4'') = Inr 0"
    by simp
  have out: "list_all (\<lambda>e. \<not> in_range 3416752388 e) [(3405803776, 3405804031, 3)]"
    by (simp add: in_range_def)
  then have out': "\<forall>e \<in> set [(3405803776, 3405804031, 3)]. \<not> in_range 3416752388 e"
    by simp
  from loopback_classified_as_test_address
    [of "[(3405803776, 3405804031, 3)]" Unicode Str "(3405803776, 3405804031, 3)"] out'
  have un: "find_netblock [(3405803776, 3405804031, 3)] (Text Unicode ''127.0.0.1'') = Inr (- 1)"
    by blast
  from v m lo te out un show ?thesis by simp
qed

subsection \<open>The iiNet prefix\<close>

text \<open>
  C7. Every address text whose upper-case form starts with \<open>''2001:4478:''\<close>, the text
  \<open>''2001:4478:ABCD::1''\<close> among them, is classified as ISP 12, and the bundle for a
  request from that address has the \<open>ispname\<close> \<open>''iiNet Australia''\<close>.
\<close>

theorem iinet_prefix_resolves:
  assumes "prefix ''2001:4478:'' (upper s)"
    and "source_of self = Text ty s"
  shows "find_netblock table (Text ty s) = Inr 12 \<and>
         (\<exists>b. bundle_of table self = Inr b \<and> ispname b = ''iiNet Australia'')"
proof -
  from assms(1) obtain rest where u: "upper s = ''2001:4478:'' @ rest"
    by (auto simp: prefix_def)
  then have "CHR '':'' \<in> set (upper s)" by simp
  then have "CHR '':'' \<in> set s" by (simp add: colon_upper)
  then have "find_netblock table (Text ty s) = Inr (ipv6_scan ipv6_prefixes (upper s))"
    by (rule find_netblock_ipv6)
  also have "ipv6_scan ipv6_prefixes (upper s) = 12"
    unfolding u by (simp add: ipv6_prefixes_def)
  finally have cls: "find_netblock table (Text ty s) = Inr 12" .
  obtain r where r: "map_of isps 12 = Some r" "isp_name r = ''iiNet Australia''"
    using isps_iinet_present by blast
  from cls assms(2) r(1) have "bundle_of table self =
     Inr \<lparr>latest = latest_version,
          download = code_file_base @ latest_file,
          country = py_or (header_country self) ''Unknown'',
          ispname = isp_name r,
          filterip = isp_server r,
          filterrule = py_or (isp_filter r) (isp_server r),
          allow = py_or (isp_allow r) [],
          test = (case isp_test r of None \<Rightarrow> None | Some t \<Rightarrow> if t = [] then None else Some t)\<rparr>"
    by (intro bundle_of_index) simp_all
  with r(2) have "\<exists>b. bundle_of table self = Inr b \<and> ispname b = ''iiNet Australia''"
    by simp
  with cls show ?thesis by simp
qed

theorem iinet_prefix_resolves_witness:
  "prefix ''2001:4478:'' (upper ''2001:4478:ABCD::1'') \<and>
   source_of \<lparr>arg_ip = None, remote_addr = ''2001:4478:ABCD::1'', header_country = Some ''AU''\<rparr>
     = Text Str ''2001:4478:ABCD::1'' \<and>
   find_netblock [] (Text Str ''2001:4478:ABCD::1'') = Inr 12 \<and>
   (\<exists>b. bundle_of []
           \<lparr>arg_ip = None, remote_addr = ''2001:4478:ABCD::1'', header_country = Some ''AU''\<rparr>
         = Inr b \<and> ispname b = ''iiNet Australia'')"
proof -
  let ?self = "\<lparr>arg_ip = None, remote_addr = ''2001:4478:ABCD::1'', header_country = Some ''AU''\<rparr>"
  have p: "prefix ''2001:4478:'' (upper ''2001:4478:ABCD::1'')"
    by (simp add: upper_def upper_char_def)
  have src: "source_of ?self = Text Str ''2001:4478:ABCD::1''"
    by (simp add: source_of_def)
  from iinet_prefix_resolves [OF p src, of "[]"] p src
  show ?thesis by simp
qed

subsection \<open>Text and number\<close>

text \<open>
  C9. A well-formed dotted quad \<open>s\<close> other than the loopback literal is parsed by
  \<^verbatim>\<open>stringip_to_number\<close> to a number \<open>n\<close> below \<open>2^32\<close>, and \<^verbatim>\<open>find_netblock\<close>
  gives the same result for the text \<open>s\<close> and for the number \<open>n\<close>; for a number it is
  the binary search alone, with no parsing, no substitution and no prefix scan.
\<close>

theorem text_and_number_agree:
  assumes "dotted_quad s" and "s \<noteq> ''127.0.0.1''"
  shows "\<exists>n. stringip_to_number ty s = Inr n \<and> 0 \<le> n \<and> n < 2 ^ 32 \<and>
           find_netblock table (Text ty s) = find_netblock table (Number n) \<and>
           find_netblock table (Number n) = binary_search table n 0 (int (length table) - 1)"
proof -
  from assms(1) obtain n where n: "stringip_to_number ty s = Inr n" "0 \<le> n" "n < 2 ^ 32"
    using dotted_quad_parses by blast
  from assms have "find_netblock table (Text ty s) =
      (case stringip_to_number ty s of
         Inl e \<Rightarrow> Inl e
       | Inr ipv4 \<Rightarrow> binary_search table ipv4 0 (int (length table) - 1))"
    by (intro find_netblock_ipv4) (simp_all add: dotted_quad_no_colon loopback_def)
  with n(1) have "find_netblock table (Text ty s) = find_netblock table (Number n)"
    by (simp add: find_netblock_Number)
  with n show ?thesis by (auto simp: find_netblock_Number)
qed

theorem text_and_number_agree_witness:
  "dotted_quad ''203.167.129.4'' \<and>
   stringip_to_number Unicode ''203.167.129.4'' = Inr 3416752388 \<and>
   find_netblock [(3416752384, 3416752639, 0)] (Text Unicode ''203.167.129.4'') =
     find_netblock [(3416752384, 3416752639, 0)] (Number 3416752388)"
proof -
  have d: "dotted_quad ''203.167.129.4''"
    by (simp add: dotted_quad_def octet_def isdigit_def decimal_def digit_value_def)
  have n: "stringip_to_number Unicode ''203.167.129.4'' = Inr 3416752388"
    by (simp add: parse_defs)
  from text_and_number_agree [OF d, of Unicode "[(3416752384, 3416752639, 0)]"] d n
  show ?thesis by simp
qed

subsection \<open>Letter case of an IPv6 address\<close>

text \<open>
  C10. For a text \<open>s\<close> with a colon and any text \<open>s'\<close> that differs from it in the case
  of letters only (the two have the same upper-case form), \<^verbatim>\<open>find_netblock\<close> gives
  the same result; every configured prefix is its own upper-case form.
\<close>

theorem ipv6_case_insensitive:
  assumes "CHR '':'' \<in> set s" and "upper s' = upper s"
  shows "find_netblock table (Text ty' s') = find_netblock table (Text ty s) \<and>
         list_all (\<lambda>p. upper (fst p) = fst p) ipv6_prefixes"
proof -
  from assms have "CHR '':'' \<in> set s'" by (metis colon_upper)
  with assms have "find_netblock table (Text ty' s') = find_netblock table (Text ty s)"
    by (simp add: find_netblock_ipv6)
  moreover have "list_all (\<lambda>p. upper (fst p) = fst p) ipv6_prefixes"
    by (simp add: ipv6_prefixes_def upper_def upper_char_def)
  ultimately show ?thesis by simp
qed

theorem ipv6_case_insensitive_witness:
  "CHR '':'' \<in> set ''2001:44b8:Cafe::1'' \<and>
   upper ''2001:44B8:cAFE::1'' = upper ''2001:44b8:Cafe::1'' \<and>
   find_netblock [] (Text Unicode ''2001:44B8:cAFE::1'') = Inr 11 \<and>
   find_netblock [] (Text Unicode ''2001:44b8:Cafe::1'') = Inr 11"
proof -
  have c: "CHR '':'' \<in> set ''2001:44b8:Cafe::1''" by simp
  have u: "upper ''2001:44B8:cAFE::1'' = upper ''2001:44b8:Cafe::1''"
    by (simp add: upper_def upper_char_def)
  have v: "find_netblock [] (Text Unicode ''2001:44b8:Cafe::1'') = Inr 11"
    by (simp add: find_netblock_def loopback_def upper_def upper_char_def ipv6_prefixes_def)
  from ipv6_case_insensitive [OF c u, of "[]" Unicode Unicode] c u v show ?thesis by simp
qed

end
